theory Spec2Isabelle
  imports Main "HOL-Library.Word"
begin

section \<open>Data model of the eth protocol test suite (cmd/devp2p/internal/acetest)\<close>

text \<open>
  The suite treats blocks, headers and hashes as values it reads, hashes and compares.
  A hash is 32 bytes. Difficulties and total difficulties are \<open>*big.Int\<close> in the source;
  they travel in RLP, which carries non-negative integers only, so they are natural numbers
  here. The hash function itself is external and is a parameter of the model (\<open>Hash\<close>
  in \<open>env\<close> below). Fields keep the source's names; where two structs share a field
  name, or a field shares its name with a method of \<open>Chain\<close>, the field carries a
  prefix (\<open>sTD\<close>, \<open>sHead\<close>, \<open>sForkID\<close> of Status, \<open>bTD\<close> of NewBlock, \<open>hVersion\<close> of
  Hello, \<open>oHash\<close> and \<open>oNumber\<close> of HashOrNumber).
\<close>

type_synonym hash = "256 word"
type_synonym bytes = "8 word list"
type_synonym forkid = bytes

record header =
  ParentHash :: hash
  Number :: nat
  Difficulty :: nat
  Extra :: bytes

record block =
  Header :: header
  Transactions :: "bytes list"

datatype error = LoadError | RangeError

text \<open>\<open>Chain\<close>: the field \<open>chainConfig.ChainID\<close> is the only part of the configuration
  that suite.go reads.\<close>

record chain =
  blocks :: "block list"
  ChainID :: nat

text \<open>p2p.Cap, and the messages of the protocol with the fields that suite.go writes or
  reads.\<close>

record cap =
  Name :: string
  Version :: nat

record hello =
  hVersion :: nat
  Caps :: "cap list"
  ID :: bytes

record status =
  ProtocolVersion :: "32 word"
  NetworkID :: "64 word"
  sTD :: nat
  sHead :: hash
  Genesis :: hash
  sForkID :: forkid

record hashOrNumber =
  oHash :: hash
  oNumber :: "64 word"

record getBlockHeaders =
  Origin :: hashOrNumber
  Amount :: "64 word"
  Skip :: "64 word"
  Reverse :: bool

record newBlock =
  Block :: block
  bTD :: nat

datatype msg =
    Hello hello
  | Status status
  | GetBlockHeaders getBlockHeaders
  | BlockHeaders "header list"
  | GetBlockBodies "hash list"
  | BlockBodies "bytes list list"
  | NewBlock newBlock
  | NewBlockHashes "(hash \<times> nat) list"
  | NewPooledTransactionHashes "hash list"
  | TransactionsMsg "bytes list"
  | Disconnect nat
  | Error string

section \<open>ChainModel\<close>

text \<open>Modelled from the spec: \<open>Chain.Len\<close> (chain.go is not among the sources): the
  length of the block sequence.\<close>

definition Len :: "chain \<Rightarrow> nat" where
  "Len c = length (blocks c)"

text \<open>Modelled from the spec: \<open>Chain.Shorten\<close> (chain.go is not among the sources).
  "shorten(k): fails with RangeError if k > length or k < 1; otherwise returns a new model
  whose block 0..k-1 are shared (read-only) with the source", "sharing the same genesis but
  truncated to the first k blocks".\<close>

definition Shorten :: "chain \<Rightarrow> nat \<Rightarrow> error + chain" where
  "Shorten c k =
     (if k > length (blocks c) \<or> k < 1 then Inl RangeError
      else Inr (c\<lparr>blocks := take k (blocks c)\<rparr>))"

text \<open>Modelled from the spec: \<open>Chain.TD\<close> (chain.go is not among the sources).
  "totalDifficulty(n) (sum over first n blocks)", "fails with RangeError if n > length; pure
  summation, no side effects". The summation is the loop over the first \<open>n\<close> blocks with an
  accumulator that starts at 0.\<close>

fun sumDifficulty :: "nat \<Rightarrow> block list \<Rightarrow> nat" where
  "sumDifficulty acc [] = acc"
| "sumDifficulty acc (b # bs) = sumDifficulty (acc + Difficulty (Header b)) bs"

definition TD :: "chain \<Rightarrow> nat \<Rightarrow> error + nat" where
  "TD c n =
     (if n > length (blocks c) then Inl RangeError
      else Inr (sumDifficulty 0 (take n (blocks c))))"

text \<open>Modelled from the spec: \<open>Chain.Head\<close> (chain.go is not among the sources):
  "head() (last block)". An empty sequence has no last block.\<close>

definition Head :: "chain \<Rightarrow> block option" where
  "Head c = (if blocks c = [] then None else Some (last (blocks c)))"

section \<open>The environment of the suite\<close>

text \<open>
  The hash function, \<open>Chain.ForkID\<close> and the payload constructors \<open>largeString\<close>,
  \<open>largeBuffer\<close>, \<open>largeNumber\<close> and \<open>largeBlock\<close> are called by suite.go and are not
  among the sources: they are parameters.
\<close>

record env =
  Hash :: "header \<Rightarrow> hash"
  ForkID :: "chain \<Rightarrow> forkid"
  largeString :: "nat \<Rightarrow> string"
  largeBuffer :: "nat \<Rightarrow> bytes"
  largeNumber :: "nat \<Rightarrow> nat"
  largeBlock :: block

text \<open>
  \<open>Conn\<close>. The fields \<open>caps\<close>, \<open>ourHighestProtoVersion\<close> and \<open>negotiatedProtoVersion\<close> are
  the source's; \<open>pub0\<close> is \<open>crypto.FromECDSAPub(&conn.ourKey.PublicKey)[1:]\<close>. The methods
  of \<open>Conn\<close> are not among the sources, and what they return depends on the peer, so a
  connection carries the outcome of each call the suite makes on it:
  \<^item> \<open>handshakeOk\<close>: \<open>conn.handshake(t)\<close> returns (otherwise it ends the test);
  \<^item> \<open>exchange\<close>: the message \<open>conn.statusExchange\<close> returns, \<open>None\<close> when it ends the
    test itself;
  \<^item> \<open>writeErr m\<close>: \<open>conn.Write(m)\<close> returns an error;
  \<^item> \<open>reads k\<close>: the message the \<open>k\<close>-th call of \<open>conn.ReadAndServe\<close> made by the
    suite returns (a timeout or a transport failure is an \<open>Error\<close> message);
  \<^item> \<open>waitForBlock b\<close>: \<open>conn.waitForBlock(b)\<close> returns without error.
\<close>

record conn =
  pub0 :: bytes
  caps :: "cap list"
  ourHighestProtoVersion :: nat
  negotiatedProtoVersion :: nat
  handshakeOk :: bool
  exchange :: "msg option"
  writeErr :: "msg \<Rightarrow> bool"
  reads :: "nat \<Rightarrow> msg"
  waitForBlock :: "block \<Rightarrow> bool"

text \<open>The \<open>k\<close>-th dial of a scenario reaches the connection \<open>ds k\<close>, or fails (\<open>None\<close>:
  \<open>net.Dial\<close> or the transport handshake returned an error).\<close>

type_synonym dials = "nat \<Rightarrow> conn option"

record suite =
  Dest :: nat
  chain :: chain
  fullChain :: chain

text \<open>
  How a test function ends: \<open>Pass\<close>; \<open>Failed\<close>, when an \<open>assert.Equal\<close> did not hold
  (the test is marked failed and goes on); \<open>Fatal\<close>, when \<open>t.Fatalf\<close> ended it; \<open>Panic\<close>,
  when an index was out of range.
\<close>

datatype verdict = Pass | Failed | Fatal | Panic

text \<open>What a scenario hands to the connection: the calls of \<open>statusExchange\<close> (with the
  chain and the override it was given) and of \<open>Write\<close>, each with the number of the dial
  that opened the connection.\<close>

datatype event =
    EvExchange nat chain "status option"
  | EvWrite nat msg

type_synonym result = "verdict \<times> suite \<times> event list"

section \<open>Suite\<close>

text \<open>\<open>NewSuite\<close>; the result of \<open>loadChain\<close> is its argument.\<close>

definition NewSuite :: "nat \<Rightarrow> error + chain \<Rightarrow> error + suite" where
  "NewSuite dest loaded =
     (case loaded of
        Inl err \<Rightarrow> Inl err
      | Inr c \<Rightarrow>
          (case Shorten c 1000 of
             Inl err \<Rightarrow> Inl err
           | Inr w \<Rightarrow> Inr \<lparr>Dest = dest, chain = w, fullChain = c\<rparr>))"

definition dial :: "dials \<Rightarrow> nat \<Rightarrow> conn option" where
  "dial ds k =
     (case ds k of
        None \<Rightarrow> None
      | Some c \<Rightarrow>
          Some (c\<lparr>caps := [\<lparr>Name = ''eth'', Version = 64\<rparr>, \<lparr>Name = ''eth'', Version = 65\<rparr>],
                  ourHighestProtoVersion := 65\<rparr>))"

text \<open>\<open>setupConnection\<close>: \<open>None\<close> when the test ended in it. The message that
  \<open>statusExchange\<close> returns is not looked at.\<close>

definition setupConnection :: "suite \<Rightarrow> dials \<Rightarrow> nat \<Rightarrow> conn option \<times> event list" where
  "setupConnection s ds k =
     (case dial ds k of
        None \<Rightarrow> (None, [])
      | Some sendConn \<Rightarrow>
          if \<not> handshakeOk sendConn then (None, [])
          else (case exchange sendConn of
                  None \<Rightarrow> (None, [EvExchange k (chain s) None])
                | Some m \<Rightarrow> (Some sendConn, [EvExchange k (chain s) None])))"

definition TestStatus :: "suite \<Rightarrow> dials \<Rightarrow> result" where
  "TestStatus s ds =
     (case dial ds 0 of
        None \<Rightarrow> (Fatal, s, [])
      | Some conn \<Rightarrow>
          if \<not> handshakeOk conn then (Fatal, s, [])
          else (case exchange conn of
                  None \<Rightarrow> (Fatal, s, [EvExchange 0 (chain s) None])
                | Some m \<Rightarrow>
                    (case m of
                       Status st \<Rightarrow> (Pass, s, [EvExchange 0 (chain s) None])
                     | _ \<Rightarrow> (Fatal, s, [EvExchange 0 (chain s) None]))))"

text \<open>The \<open>Status\<close> literal of \<open>TestMaliciousStatus\<close>. \<open>ChainID.Uint64()\<close> and the
  conversion \<open>uint32(...)\<close> keep the low bits.\<close>

definition maliciousStatus :: "env \<Rightarrow> suite \<Rightarrow> conn \<Rightarrow> status" where
  "maliciousStatus E s conn =
     \<lparr>ProtocolVersion = of_nat (negotiatedProtoVersion conn),
      NetworkID = of_nat (ChainID (chain s)),
      sTD = largeNumber E 2,
      sHead = Hash E (Header (blocks (chain s) ! (Len (chain s) - 1))),
      Genesis = Hash E (Header (blocks (chain s) ! 0)),
      sForkID = ForkID E (chain s)\<rparr>"

definition TestMaliciousStatus :: "env \<Rightarrow> suite \<Rightarrow> dials \<Rightarrow> result" where
  "TestMaliciousStatus E s ds =
     (case dial ds 0 of
        None \<Rightarrow> (Fatal, s, [])
      | Some conn \<Rightarrow>
          if \<not> handshakeOk conn then (Fatal, s, [])
          else if Len (chain s) = 0 then (Panic, s, [])
          else
            let status = maliciousStatus E s conn;
                ev = [EvExchange 0 (chain s) (Some status)]
            in (case exchange conn of
                  None \<Rightarrow> (Fatal, s, ev)
                | Some m \<Rightarrow>
                    (case m of
                       Status st \<Rightarrow>
                         (case reads conn 0 of
                            Disconnect r \<Rightarrow> (Pass, s, ev)
                          | Error e \<Rightarrow> (Pass, s, ev)
                          | _ \<Rightarrow> (Fatal, s, ev))
                     | _ \<Rightarrow> (Fatal, s, ev))))"

text \<open>The loop of \<open>TestGetBlockHeaders\<close> over the headers of the response. \<open>failed\<close> is
  set when an \<open>assert.Equal\<close> did not hold. \<open>header.Number.Uint64()\<close> keeps the low 64 bits;
  the index \<open>int(num)\<close> is out of range unless it is below the length of the chain.\<close>

fun checkHeaders :: "chain \<Rightarrow> bool \<Rightarrow> header list \<Rightarrow> verdict" where
  "checkHeaders c failed [] = (if failed then Failed else Pass)"
| "checkHeaders c failed (h # hs) =
     (let num = Number h mod 2 ^ 64
      in if num < length (blocks c)
         then checkHeaders c (failed \<or> Header (blocks c ! num) \<noteq> h) hs
         else Panic)"

definition headersRequest :: "env \<Rightarrow> suite \<Rightarrow> getBlockHeaders" where
  "headersRequest E s =
     \<lparr>Origin = \<lparr>oHash = Hash E (Header (blocks (chain s) ! 1)), oNumber = 0\<rparr>,
      Amount = 2, Skip = 1, Reverse = False\<rparr>"

definition TestGetBlockHeaders :: "env \<Rightarrow> suite \<Rightarrow> dials \<Rightarrow> result" where
  "TestGetBlockHeaders E s ds =
     (case dial ds 0 of
        None \<Rightarrow> (Fatal, s, [])
      | Some conn \<Rightarrow>
          if \<not> handshakeOk conn then (Fatal, s, [])
          else
            let e0 = [EvExchange 0 (chain s) None]
            in (case exchange conn of
                  None \<Rightarrow> (Fatal, s, e0)
                | Some m0 \<Rightarrow>
                    if \<not> 1 < length (blocks (chain s)) then (Panic, s, e0)
                    else
                      let req = GetBlockHeaders (headersRequest E s);
                          ev = e0 @ [EvWrite 0 req]
                      in if writeErr conn req then (Fatal, s, ev)
                         else (case reads conn 0 of
                                 BlockHeaders headers \<Rightarrow> (checkHeaders (chain s) False headers, s, ev)
                               | _ \<Rightarrow> (Fatal, s, ev))))"

definition TestGetBlockBodies :: "env \<Rightarrow> suite \<Rightarrow> dials \<Rightarrow> result" where
  "TestGetBlockBodies E s ds =
     (case dial ds 0 of
        None \<Rightarrow> (Fatal, s, [])
      | Some conn \<Rightarrow>
          if \<not> handshakeOk conn then (Fatal, s, [])
          else
            let e0 = [EvExchange 0 (chain s) None]
            in (case exchange conn of
                  None \<Rightarrow> (Fatal, s, e0)
                | Some m0 \<Rightarrow>
                    if \<not> 75 < length (blocks (chain s)) then (Panic, s, e0)
                    else
                      let req = GetBlockBodies [Hash E (Header (blocks (chain s) ! 54)),
                                                Hash E (Header (blocks (chain s) ! 75))];
                          ev = e0 @ [EvWrite 0 req]
                      in if writeErr conn req then (Fatal, s, ev)
                         else (case reads conn 0 of
                                 BlockBodies bodies \<Rightarrow> (Pass, s, ev)
                               | _ \<Rightarrow> (Fatal, s, ev))))"

text \<open>\<open>waitAnnounce\<close>, reading on the connection \<open>conn\<close>. \<open>message[0]\<close> of an empty
  \<open>NewBlockHashes\<close> is out of range.\<close>

definition waitAnnounce :: "env \<Rightarrow> conn \<Rightarrow> newBlock \<Rightarrow> verdict" where
  "waitAnnounce E conn blockAnnouncement =
     (case reads conn 0 of
        NewBlock m \<Rightarrow>
          if Header (Block blockAnnouncement) = Header (Block m) \<and> bTD blockAnnouncement = bTD m
          then Pass else Failed
      | NewBlockHashes message \<Rightarrow>
          (case message of
             [] \<Rightarrow> Panic
           | first # rest \<Rightarrow>
               if Hash E (Header (Block blockAnnouncement)) = fst first then Pass else Failed)
      | _ \<Rightarrow> Fatal)"

text \<open>\<open>testAnnounce\<close>; \<open>k\<close> is the number of the dial that opened \<open>sendConn\<close>.\<close>

definition testAnnounce :: "env \<Rightarrow> nat \<Rightarrow> conn \<Rightarrow> conn \<Rightarrow> newBlock \<Rightarrow> verdict \<times> event list" where
  "testAnnounce E k sendConn receiveConn blockAnnouncement =
     (if writeErr sendConn (NewBlock blockAnnouncement)
      then (Fatal, [EvWrite k (NewBlock blockAnnouncement)])
      else (waitAnnounce E receiveConn blockAnnouncement, [EvWrite k (NewBlock blockAnnouncement)]))"

text \<open>\<open>s.chain.blocks = append(s.chain.blocks, b)\<close>\<close>

definition appendBlock :: "suite \<Rightarrow> block \<Rightarrow> suite" where
  "appendBlock s b = s\<lparr>chain := (chain s)\<lparr>blocks := blocks (chain s) @ [b]\<rparr>\<rparr>"

definition TestBroadcast :: "env \<Rightarrow> suite \<Rightarrow> dials \<Rightarrow> result" where
  "TestBroadcast E s ds =
     (case setupConnection s ds 0 of
        (None, e0) \<Rightarrow> (Fatal, s, e0)
      | (Some sendConn, e0) \<Rightarrow>
     (case setupConnection s ds 1 of
        (None, e1) \<Rightarrow> (Fatal, s, e0 @ e1)
      | (Some receiveConn, e1) \<Rightarrow>
          let nextBlock = length (blocks (chain s))
          in if \<not> nextBlock < length (blocks (fullChain s)) then (Panic, s, e0 @ e1)
             else (case TD (fullChain s) (nextBlock + 1) of
                     Inl err \<Rightarrow> (Panic, s, e0 @ e1)
                   | Inr td \<Rightarrow>
                       let blockAnnouncement =
                             \<lparr>Block = blocks (fullChain s) ! nextBlock, bTD = td\<rparr>
                       in (case testAnnounce E 0 sendConn receiveConn blockAnnouncement of
                             (v, e2) \<Rightarrow>
                               if v = Fatal \<or> v = Panic then (v, s, e0 @ e1 @ e2)
                               else
                                 let s' = appendBlock s (blocks (fullChain s) ! nextBlock)
                                 in (case Head (chain s') of
                                       None \<Rightarrow> (Panic, s', e0 @ e1 @ e2)
                                     | Some head \<Rightarrow>
                                         if waitForBlock receiveConn head
                                         then (v, s', e0 @ e1 @ e2)
                                         else (Fatal, s', e0 @ e1 @ e2))))))"

text \<open>The five forged handshakes of \<open>TestMaliciousHandshake\<close>. \<open>p\<close> is \<open>pub0\<close>, a
  slice whose capacity is its length, so each \<open>append\<close> makes a new slice.\<close>

definition handshakes :: "env \<Rightarrow> bytes \<Rightarrow> hello list" where
  "handshakes E p =
     [\<lparr>hVersion = 5, Caps = [\<lparr>Name = largeString E 2, Version = 64\<rparr>], ID = p\<rparr>,
      \<lparr>hVersion = 5, Caps = [\<lparr>Name = ''eth'', Version = 64\<rparr>, \<lparr>Name = ''eth'', Version = 65\<rparr>],
        ID = p @ [0]\<rparr>,
      \<lparr>hVersion = 5, Caps = [\<lparr>Name = ''eth'', Version = 64\<rparr>, \<lparr>Name = ''eth'', Version = 65\<rparr>],
        ID = p @ p\<rparr>,
      \<lparr>hVersion = 5, Caps = [\<lparr>Name = ''eth'', Version = 64\<rparr>, \<lparr>Name = ''eth'', Version = 65\<rparr>],
        ID = largeBuffer E 2\<rparr>,
      \<lparr>hVersion = 5, Caps = [\<lparr>Name = largeString E 2, Version = 64\<rparr>], ID = largeBuffer E 2\<rparr>]"

text \<open>The inner loop \<open>for i := 0; i < 2; i++\<close> of \<open>TestMaliciousHandshake\<close>: after a
  \<open>Disconnect\<close> or an \<open>Error\<close> the \<open>switch\<close> ends and the loop goes on; after a \<open>Hello\<close>
  the \<open>continue\<close> goes on as well.\<close>

function handshakeReads :: "conn \<Rightarrow> nat \<Rightarrow> verdict" where
  "handshakeReads conn i =
     (if i < 2
      then (case reads conn i of
              Disconnect r \<Rightarrow> handshakeReads conn (i + 1)
            | Error e \<Rightarrow> handshakeReads conn (i + 1)
            | Hello h \<Rightarrow> handshakeReads conn (i + 1)
            | _ \<Rightarrow> Fatal)
      else Pass)"
  by pat_completeness auto
termination
  by (relation "measure (\<lambda>(conn, i). 2 - i)") auto

text \<open>The outer loop over the handshakes: \<open>conn\<close> is the connection of dial \<open>k\<close>; after
  each round the suite dials again.\<close>

fun handshakeRounds :: "dials \<Rightarrow> nat \<Rightarrow> conn \<Rightarrow> hello list \<Rightarrow> verdict \<times> event list" where
  "handshakeRounds ds k conn [] = (Pass, [])"
| "handshakeRounds ds k conn (handshake # rest) =
     (if writeErr conn (Hello handshake) then (Fatal, [EvWrite k (Hello handshake)])
      else if handshakeReads conn 0 \<noteq> Pass then (Fatal, [EvWrite k (Hello handshake)])
      else (case dial ds (Suc k) of
              None \<Rightarrow> (Fatal, [EvWrite k (Hello handshake)])
            | Some conn' \<Rightarrow>
                (case handshakeRounds ds (Suc k) conn' rest of
                   (v, es) \<Rightarrow> (v, EvWrite k (Hello handshake) # es))))"

definition TestMaliciousHandshake :: "env \<Rightarrow> suite \<Rightarrow> dials \<Rightarrow> result" where
  "TestMaliciousHandshake E s ds =
     (case dial ds 0 of
        None \<Rightarrow> (Fatal, s, [])
      | Some conn \<Rightarrow>
          (case handshakeRounds ds 0 conn (handshakes E (pub0 conn)) of
             (v, es) \<Rightarrow> (v, s, es)))"

text \<open>The loop of \<open>TestLargeAnnounce\<close> over the malicious announcements; round \<open>k\<close> sets up
  the connection of dial \<open>k\<close>.\<close>

fun largeAnnounceRounds :: "suite \<Rightarrow> dials \<Rightarrow> nat \<Rightarrow> newBlock list \<Rightarrow> verdict \<times> event list" where
  "largeAnnounceRounds s ds k [] = (Pass, [])"
| "largeAnnounceRounds s ds k (blockAnnouncement # rest) =
     (case setupConnection s ds k of
        (None, e) \<Rightarrow> (Fatal, e)
      | (Some sendConn, e) \<Rightarrow>
          let ev = e @ [EvWrite k (NewBlock blockAnnouncement)]
          in if writeErr sendConn (NewBlock blockAnnouncement) then (Fatal, ev)
             else (case reads sendConn 0 of
                     Disconnect r \<Rightarrow>
                       (case largeAnnounceRounds s ds (Suc k) rest of (v, es) \<Rightarrow> (v, ev @ es))
                   | Error x \<Rightarrow>
                       (case largeAnnounceRounds s ds (Suc k) rest of (v, es) \<Rightarrow> (v, ev @ es))
                   | _ \<Rightarrow> (Fatal, ev)))"

definition TestLargeAnnounce :: "env \<Rightarrow> suite \<Rightarrow> dials \<Rightarrow> result" where
  "TestLargeAnnounce E s ds =
     (let nextBlock = length (blocks (chain s))
      in case TD (fullChain s) (nextBlock + 1) of
           Inl err \<Rightarrow> (Panic, s, [])
         | Inr td \<Rightarrow>
             if \<not> nextBlock < length (blocks (fullChain s)) then (Panic, s, [])
             else
               let announcements =
                     [\<lparr>Block = largeBlock E, bTD = td\<rparr>,
                      \<lparr>Block = blocks (fullChain s) ! nextBlock, bTD = largeNumber E 2\<rparr>,
                      \<lparr>Block = largeBlock E, bTD = largeNumber E 2\<rparr>,
                      \<lparr>Block = blocks (fullChain s) ! nextBlock, bTD = td\<rparr>]
               in (case largeAnnounceRounds s ds 0 (take 3 announcements) of
                     (v0, es) \<Rightarrow>
                       if v0 \<noteq> Pass then (v0, s, es)
                       else
                     (case setupConnection s ds 3 of
                        (None, e3) \<Rightarrow> (Fatal, s, es @ e3)
                      | (Some sendConn, e3) \<Rightarrow>
                     (case setupConnection s ds 4 of
                        (None, e4) \<Rightarrow> (Fatal, s, es @ e3 @ e4)
                      | (Some receiveConn, e4) \<Rightarrow>
                     (case testAnnounce E 3 sendConn receiveConn (announcements ! 3) of
                        (v, e5) \<Rightarrow>
                          if v = Fatal \<or> v = Panic then (v, s, es @ e3 @ e4 @ e5)
                          else
                            let s' = appendBlock s (blocks (fullChain s) ! nextBlock)
                            in if waitForBlock receiveConn (blocks (fullChain s) ! nextBlock)
                               then (v, s', es @ e3 @ e4 @ e5)
                               else (Fatal, s', es @ e3 @ e4 @ e5))))))"

text \<open>\<open>strings.Contains\<close>\<close>

fun Contains :: "string \<Rightarrow> string \<Rightarrow> bool" where
  "Contains [] substr = (substr = [])"
| "Contains (c # s) substr = (take (length substr) (c # s) = substr \<or> Contains s substr)"

text \<open>The announcement of \<open>oldAnnounce\<close>: the block in the middle of the working chain,
  with its own difficulty as total difficulty.\<close>

definition oldBlockAnnounce :: "suite \<Rightarrow> newBlock" where
  "oldBlockAnnounce s =
     \<lparr>Block = blocks (chain s) ! (length (blocks (chain s)) div 2),
      bTD = Difficulty (Header (blocks (chain s) ! (length (blocks (chain s)) div 2)))\<rparr>"

definition oldAnnounce :: "suite \<Rightarrow> conn \<Rightarrow> conn \<Rightarrow> verdict \<times> event list" where
  "oldAnnounce s sendConn receiveConn =
     (if \<not> length (blocks (chain s)) div 2 < length (blocks (chain s)) then (Panic, [])
      else
        let ev = [EvWrite 0 (NewBlock (oldBlockAnnounce s))]
        in if writeErr sendConn (NewBlock (oldBlockAnnounce s)) then (Fatal, ev)
           else (case reads receiveConn 0 of
                   NewBlock m \<Rightarrow> (Fatal, ev)
                 | NewBlockHashes m \<Rightarrow> (Fatal, ev)
                 | Error errMsg \<Rightarrow> (if \<not> Contains errMsg ''timeout'' then (Fatal, ev) else (Pass, ev))
                 | _ \<Rightarrow> (Fatal, ev)))"

definition TestOldAnnounce :: "suite \<Rightarrow> dials \<Rightarrow> result" where
  "TestOldAnnounce s ds =
     (case setupConnection s ds 0 of
        (None, e0) \<Rightarrow> (Fatal, s, e0)
      | (Some sendConn, e0) \<Rightarrow>
     (case setupConnection s ds 1 of
        (None, e1) \<Rightarrow> (Fatal, s, e0 @ e1)
      | (Some receiveConn, e1) \<Rightarrow>
          (case oldAnnounce s sendConn receiveConn of
             (v, e2) \<Rightarrow> (v, s, e0 @ e1 @ e2))))"

section \<open>Running scenarios one after another\<close>

text \<open>
  The scenarios of suite.go whose code is among the sources. A test that ends with
  \<open>t.Fatalf\<close> leaves the suite as it is at that point and the next test runs on it; a
  panic ends the run.
\<close>

datatype scenario =
    ScStatus | ScMaliciousStatus | ScGetBlockHeaders | ScGetBlockBodies | ScBroadcast
  | ScMaliciousHandshake | ScLargeAnnounce | ScOldAnnounce

fun runTest :: "env \<Rightarrow> suite \<Rightarrow> scenario \<Rightarrow> dials \<Rightarrow> result" where
  "runTest E s ScStatus ds = TestStatus s ds"
| "runTest E s ScMaliciousStatus ds = TestMaliciousStatus E s ds"
| "runTest E s ScGetBlockHeaders ds = TestGetBlockHeaders E s ds"
| "runTest E s ScGetBlockBodies ds = TestGetBlockBodies E s ds"
| "runTest E s ScBroadcast ds = TestBroadcast E s ds"
| "runTest E s ScMaliciousHandshake ds = TestMaliciousHandshake E s ds"
| "runTest E s ScLargeAnnounce ds = TestLargeAnnounce E s ds"
| "runTest E s ScOldAnnounce ds = TestOldAnnounce s ds"

fun runTests :: "env \<Rightarrow> suite \<Rightarrow> (scenario \<times> dials) list \<Rightarrow> suite" where
  "runTests E s [] = s"
| "runTests E s ((sc, ds) # rest) =
     (case runTest E s sc ds of
        (v, s', es) \<Rightarrow> if v = Panic then s' else runTests E s' rest)"

section \<open>Example inputs\<close>

text \<open>
  A reference chain of 1001 blocks numbered from 0, each of difficulty 2; a hash under
  which every block's parent hash is the hash of its predecessor; a fork identifier that
  tells whether the head has reached block 1000 (a fork that activates there); connections
  on which the handshake succeeds and every write goes through.
\<close>

definition exampleBlock :: "nat \<Rightarrow> block" where
  "exampleBlock n =
     \<lparr>Header = \<lparr>ParentHash = of_nat n, Number = n, Difficulty = 2, Extra = []\<rparr>,
      Transactions = []\<rparr>"

definition exampleFull :: chain where
  "exampleFull = \<lparr>blocks = map exampleBlock [0..<1001], ChainID = 1\<rparr>"

definition exampleSuite :: suite where
  "exampleSuite =
     \<lparr>Dest = 0, chain = \<lparr>blocks = map exampleBlock [0..<1000], ChainID = 1\<rparr>,
      fullChain = exampleFull\<rparr>"

definition exampleEnv :: env where
  "exampleEnv =
     \<lparr>Hash = (\<lambda>h. of_nat (Number h) + 1),
      ForkID = (\<lambda>c. if 1000 < length (blocks c) then [1] else [0]),
      largeString = (\<lambda>n. replicate (2 * n) CHR ''a''),
      largeBuffer = (\<lambda>n. replicate (2 * n) 255),
      largeNumber = (\<lambda>n. 2 ^ (8 * n)),
      largeBlock = \<lparr>Header = \<lparr>ParentHash = 0, Number = 1000, Difficulty = 2,
                                 Extra = replicate 64 255\<rparr>,
                     Transactions = []\<rparr>\<rparr>"

definition exampleConn :: "msg option \<Rightarrow> (nat \<Rightarrow> msg) \<Rightarrow> conn" where
  "exampleConn ex rd =
     \<lparr>pub0 = replicate 64 1,
      caps = [\<lparr>Name = ''eth'', Version = 64\<rparr>, \<lparr>Name = ''eth'', Version = 65\<rparr>],
      ourHighestProtoVersion = 65,
      negotiatedProtoVersion = 65, handshakeOk = True, exchange = ex,
      writeErr = (\<lambda>m. False), reads = rd, waitForBlock = (\<lambda>b. True)\<rparr>"

definition exampleStatus :: status where
  "exampleStatus =
     \<lparr>ProtocolVersion = 65, NetworkID = 1, sTD = 2000, sHead = 1000, Genesis = 1,
      sForkID = [0]\<rparr>"

definition smallChain :: chain where
  "smallChain = \<lparr>blocks = [exampleBlock 0, exampleBlock 1, exampleBlock 2], ChainID = 1\<rparr>"

text \<open>Peers: one that answers the status exchange with its status and then disconnects;
  one that only ever sends a well-formed Hello; one that answers a header request with
  no headers; a pair of connections on which the announced block is propagated as a hash;
  one that stays silent until the read times out.\<close>

definition disconnectingConn :: conn where
  "disconnectingConn = exampleConn (Some (Status exampleStatus)) (\<lambda>i. Disconnect 3)"

definition disconnectingPeer :: dials where
  "disconnectingPeer = (\<lambda>k. Some disconnectingConn)"

definition benignHello :: hello where
  "benignHello =
     \<lparr>hVersion = 5, Caps = [\<lparr>Name = ''eth'', Version = 64\<rparr>, \<lparr>Name = ''eth'', Version = 65\<rparr>],
      ID = replicate 64 2\<rparr>"

definition helloConn :: conn where
  "helloConn = exampleConn None (\<lambda>i. Hello benignHello)"

definition helloPeer :: dials where
  "helloPeer = (\<lambda>k. Some helloConn)"

definition emptyHeadersConn :: conn where
  "emptyHeadersConn = exampleConn (Some (Status exampleStatus)) (\<lambda>i. BlockHeaders [])"

definition emptyHeadersPeer :: dials where
  "emptyHeadersPeer = (\<lambda>k. Some emptyHeadersConn)"

definition announcingConn :: conn where
  "announcingConn =
     exampleConn (Some (Status exampleStatus)) (\<lambda>i. NewBlockHashes [(1001, 1000)])"

definition announcingPeer :: dials where
  "announcingPeer = (\<lambda>k. Some announcingConn)"

definition headersConn :: conn where
  "headersConn =
     exampleConn (Some (Status exampleStatus))
       (\<lambda>i. BlockHeaders [Header (exampleBlock 1), Header (exampleBlock 3)])"

definition headersPeer :: dials where
  "headersPeer = (\<lambda>k. Some headersConn)"

definition refusingConn :: conn where
  "refusingConn = exampleConn (Some (Disconnect 3)) (\<lambda>i. Error ''EOF'')"

definition refusingPeer :: dials where
  "refusingPeer = (\<lambda>k. Some refusingConn)"

definition silentConn :: conn where
  "silentConn =
     exampleConn (Some (Status exampleStatus))
       (\<lambda>i. Error ''could not read from connection: i/o timeout'')"

definition silentPeer :: dials where
  "silentPeer = (\<lambda>k. Some silentConn)"

section \<open>Properties of the chain model\<close>

lemma sumDifficulty_acc:
  "sumDifficulty acc bs = acc + sum_list (map (\<lambda>b. Difficulty (Header b)) bs)"
  by (induction bs arbitrary: acc) auto

lemma sum_list_take_mono:
  fixes f :: "'a \<Rightarrow> nat"
  assumes "n \<le> m"
  shows "sum_list (map f (take n xs)) \<le> sum_list (map f (take m xs))"
proof -
  from assms obtain d where m: "m = n + d"
    using le_Suc_ex by blast
  have "take m xs = take n xs @ take d (drop n xs)"
    unfolding m by (simp add: take_add)
  then show ?thesis by simp
qed

text \<open>
  Claim C7. For every chain and every \<open>k\<close> with \<open>1 \<le> k \<le> length\<close>, \<open>Shorten\<close> returns
  a model of exactly \<open>k\<close> blocks whose block at each index \<open>i < k\<close> is the source's block at
  index \<open>i\<close> (hence has the same hash under any hash function \<open>H\<close>), with the same
  configuration; for \<open>k > length\<close> or \<open>k < 1\<close> it fails with \<open>RangeError\<close>.
\<close>

theorem Shorten_spec:
  "(1 \<le> k \<and> k \<le> length (blocks c) \<longrightarrow>
      (\<exists>c'. Shorten c k = Inr c' \<and> length (blocks c') = k \<and> ChainID c' = ChainID c \<and>
            (\<forall>i<k. blocks c' ! i = blocks c ! i \<and>
                   H (Header (blocks c' ! i)) = H (Header (blocks c ! i)))))
   \<and> (k > length (blocks c) \<or> k < 1 \<longrightarrow> Shorten c k = Inl RangeError)"
  by (auto simp: Shorten_def)

theorem Shorten_spec_witness:
  "(1 \<le> (2::nat) \<and> 2 \<le> length (blocks smallChain)) \<and>
   (\<exists>c'. Shorten smallChain 2 = Inr c' \<and> length (blocks c') = 2 \<and>
         ChainID c' = ChainID smallChain \<and>
         (\<forall>i<2. blocks c' ! i = blocks smallChain ! i \<and>
                Hash exampleEnv (Header (blocks c' ! i))
                = Hash exampleEnv (Header (blocks smallChain ! i)))) \<and>
   (1000 > length (blocks smallChain)) \<and> Shorten smallChain 1000 = Inl RangeError \<and>
   ((0::nat) < 1) \<and> Shorten smallChain 0 = Inl RangeError"
  using Shorten_spec [of 2 smallChain "Hash exampleEnv"]
    Shorten_spec [of 1000 smallChain "Hash exampleEnv"]
    Shorten_spec [of 0 smallChain "Hash exampleEnv"]
  by (simp add: smallChain_def)

text \<open>
  Claim C8. \<open>TD c n\<close> is the sum of the difficulties of blocks \<open>0..n-1\<close>, it is monotonically
  non-decreasing in \<open>n\<close> up to the length of the chain, and it fails with \<open>RangeError\<close> for
  \<open>n > length\<close>. As a function it returns its result only; the chain is not changed.
\<close>

theorem TD_spec:
  "(n \<le> length (blocks c) \<longrightarrow>
      TD c n = Inr (\<Sum>i<n. Difficulty (Header (blocks c ! i))))
   \<and> (n \<le> m \<and> m \<le> length (blocks c) \<longrightarrow>
      (\<exists>a b. TD c n = Inr a \<and> TD c m = Inr b \<and> a \<le> b))
   \<and> (n > length (blocks c) \<longrightarrow> TD c n = Inl RangeError)"
proof (intro conjI impI)
  assume n: "n \<le> length (blocks c)"
  have "sum_list (map (\<lambda>b. Difficulty (Header b)) (take n (blocks c)))
        = (\<Sum>i<n. Difficulty (Header (blocks c ! i)))"
    using n by (simp add: sum_list_sum_nth atLeast0LessThan)
  then show "TD c n = Inr (\<Sum>i<n. Difficulty (Header (blocks c ! i)))"
    using n by (simp add: TD_def sumDifficulty_acc)
next
  assume nm: "n \<le> m \<and> m \<le> length (blocks c)"
  then have "sumDifficulty 0 (take n (blocks c)) \<le> sumDifficulty 0 (take m (blocks c))"
    by (simp add: sumDifficulty_acc sum_list_take_mono)
  with nm show "\<exists>a b. TD c n = Inr a \<and> TD c m = Inr b \<and> a \<le> b"
    by (simp add: TD_def)
next
  assume "n > length (blocks c)"
  then show "TD c n = Inl RangeError" by (simp add: TD_def)
qed

theorem TD_spec_witness:
  "((2::nat) \<le> length (blocks smallChain)) \<and>
   TD smallChain 2 = Inr (\<Sum>i<2. Difficulty (Header (blocks smallChain ! i))) \<and>
   ((2::nat) \<le> 3 \<and> 3 \<le> length (blocks smallChain)) \<and>
   (\<exists>a b. TD smallChain 2 = Inr a \<and> TD smallChain 3 = Inr b \<and> a \<le> b) \<and>
   (4 > length (blocks smallChain)) \<and> TD smallChain 4 = Inl RangeError"
proof -
  have len: "length (blocks smallChain) = 3"
    by (simp add: smallChain_def)
  have a: "(2::nat) \<le> length (blocks smallChain)"
    and b: "(2::nat) \<le> 3 \<and> 3 \<le> length (blocks smallChain)"
    and c: "4 > length (blocks smallChain)"
    using len by simp_all
  from TD_spec [of 2 smallChain 3] TD_spec [of 4 smallChain 4] a b c
  show ?thesis by blast
qed

section \<open>Facts about the example inputs and the helper functions\<close>

lemma exampleSuite_len: "length (blocks (chain exampleSuite)) = 1000"
  by (simp add: exampleSuite_def)

lemma exampleFull_len: "length (blocks exampleFull) = 1001"
  by (simp add: exampleFull_def)

lemma NewSuite_example: "NewSuite 0 (Inr exampleFull) = Inr exampleSuite"
  by (simp add: NewSuite_def Shorten_def exampleFull_def exampleSuite_def take_map)

lemma handshakeReads_0:
  "handshakeReads conn 0 =
     (case reads conn 0 of
        Disconnect r \<Rightarrow> handshakeReads conn 1
      | Error e \<Rightarrow> handshakeReads conn 1
      | Hello h \<Rightarrow> handshakeReads conn 1
      | _ \<Rightarrow> Fatal)"
  by (subst handshakeReads.simps) (simp cong: msg.case_cong)

lemma handshakeReads_1:
  "handshakeReads conn (Suc 0) =
     (case reads conn 1 of
        Disconnect r \<Rightarrow> Pass
      | Error e \<Rightarrow> Pass
      | Hello h \<Rightarrow> Pass
      | _ \<Rightarrow> Fatal)"
  by (subst handshakeReads.simps, subst handshakeReads.simps) (simp split: msg.splits)

lemma checkHeaders_Pass:
  "checkHeaders c failed hs = Pass \<longleftrightarrow>
     \<not> failed \<and> (\<forall>h\<in>set hs. Number h mod 2 ^ 64 < length (blocks c) \<and>
                              Header (blocks c ! (Number h mod 2 ^ 64)) = h)"
  by (induction hs arbitrary: failed) (auto simp: Let_def)

lemma setupConnection_Some:
  "setupConnection s ds k = (Some c, es) \<longleftrightarrow>
     dial ds k = Some c \<and> handshakeOk c \<and> exchange c \<noteq> None \<and>
     es = [EvExchange k (chain s) None]"
  by (auto simp: setupConnection_def split: option.splits)

lemma waitAnnounce_Pass:
  "waitAnnounce E conn a = Pass \<longleftrightarrow>
     (\<exists>m. reads conn 0 = NewBlock m \<and> Header (Block m) = Header (Block a) \<and> bTD m = bTD a) \<or>
     (\<exists>first rest. reads conn 0 = NewBlockHashes (first # rest) \<and>
         fst first = Hash E (Header (Block a)))"
  by (auto simp: waitAnnounce_def split: msg.splits list.splits)

lemma Contains_iff: "Contains s substr \<longleftrightarrow> (\<exists>ps ss. s = ps @ substr @ ss)"
proof (induction s)
  case Nil
  then show ?case by auto
next
  case (Cons c s)
  have "take (length substr) (c # s) = substr \<longleftrightarrow> (\<exists>ss. c # s = substr @ ss)"
    by (metis append_eq_conv_conj append_take_drop_id)
  moreover have "(\<exists>ps ss. c # s = ps @ substr @ ss) \<longleftrightarrow>
      (\<exists>ss. c # s = substr @ ss) \<or> (\<exists>ps ss. s = ps @ substr @ ss)"
    by (auto simp: Cons_eq_append_conv)
  ultimately show ?case using Cons.IH by simp
qed

lemma nth_le_TD:
  assumes "i < length (blocks c)"
  shows "\<exists>td. TD c (Len c) = Inr td \<and> Difficulty (Header (blocks c ! i)) \<le> td"
proof -
  have "blocks c ! i \<in> set (blocks c)"
    using assms by simp
  then have "Difficulty (Header (blocks c ! i))
             \<le> sum_list (map (\<lambda>b. Difficulty (Header b)) (blocks c))"
    by (simp add: member_le_sum_list)
  then show ?thesis
    by (simp add: TD_def Len_def sumDifficulty_acc)
qed


section \<open>The scenarios\<close>

text \<open>
  Claim C1 (malicious handshake). The claim asks for a Disconnect or an Error within the two
  messages read after a forged Hello, a benign Hello taking one of the two slots. The loop
  of \<open>TestMaliciousHandshake\<close> reads two messages and goes on after a Hello in either slot:
  against a peer that answers every forged Hello with two well-formed Hellos and never
  disconnects, the scenario passes for all five handshakes.
\<close>

theorem TestMaliciousHandshake_two_hellos:
  "fst (TestMaliciousHandshake exampleEnv exampleSuite helloPeer) = Pass \<and>
   helloPeer 0 = Some helloConn \<and>
   reads helloConn 0 = Hello benignHello \<and> reads helloConn 1 = Hello benignHello"
  by (simp add: TestMaliciousHandshake_def dial_def helloPeer_def helloConn_def exampleConn_def
       handshakes_def handshakeReads_0 handshakeReads_1)

text \<open>
  Claim C2 (block headers), as the code has it. \<open>TestGetBlockHeaders\<close> passes exactly when
  the connection is set up, the working chain has a block 1, the request is written and the
  reply is a BlockHeaders message each of whose headers is equal to the header of the
  working chain's block at that header's number. The request it writes has origin = hash of
  block 1 of the working chain, amount 2, skip 1, reverse false. Which headers come back,
  and how many, is not checked.
\<close>

theorem TestGetBlockHeaders_spec:
  "(fst (TestGetBlockHeaders E s ds) = Pass \<longleftrightarrow>
      (\<exists>conn headers. dial ds 0 = Some conn \<and> handshakeOk conn \<and> exchange conn \<noteq> None \<and>
          1 < length (blocks (chain s)) \<and>
          \<not> writeErr conn (GetBlockHeaders (headersRequest E s)) \<and>
          reads conn 0 = BlockHeaders headers \<and>
          (\<forall>h\<in>set headers. Number h mod 2 ^ 64 < length (blocks (chain s)) \<and>
              Header (blocks (chain s) ! (Number h mod 2 ^ 64)) = h)))
   \<and> (fst (TestGetBlockHeaders E s ds) = Pass \<longrightarrow>
        snd (snd (TestGetBlockHeaders E s ds)) =
          [EvExchange 0 (chain s) None,
           EvWrite 0 (GetBlockHeaders
             \<lparr>Origin = \<lparr>oHash = Hash E (Header (blocks (chain s) ! 1)), oNumber = 0\<rparr>,
              Amount = 2, Skip = 1, Reverse = False\<rparr>)])"
  by (auto simp: TestGetBlockHeaders_def Let_def checkHeaders_Pass headersRequest_def
           split: option.splits msg.splits)

theorem TestGetBlockHeaders_spec_witness:
  "fst (TestGetBlockHeaders exampleEnv exampleSuite headersPeer) = Pass \<and>
   (\<exists>conn headers. dial headersPeer 0 = Some conn \<and>
       reads conn 0 = BlockHeaders headers \<and>
       (\<forall>h\<in>set headers. Number h mod 2 ^ 64 < length (blocks (chain exampleSuite)) \<and>
           Header (blocks (chain exampleSuite) ! (Number h mod 2 ^ 64)) = h)) \<and>
   snd (snd (TestGetBlockHeaders exampleEnv exampleSuite headersPeer)) =
     [EvExchange 0 (chain exampleSuite) None,
      EvWrite 0 (GetBlockHeaders
        \<lparr>Origin = \<lparr>oHash = Hash exampleEnv (Header (blocks (chain exampleSuite) ! 1)),
                    oNumber = 0\<rparr>,
         Amount = 2, Skip = 1, Reverse = False\<rparr>)]"
proof -
  have b: "blocks (chain exampleSuite) ! Suc 0 = exampleBlock (Suc 0)"
    "blocks (chain exampleSuite) ! 3 = exampleBlock 3"
    by (simp_all add: exampleSuite_def)
  have n: "Number (Header (exampleBlock k)) = k" for k
    by (simp add: exampleBlock_def)
  have p: "fst (TestGetBlockHeaders exampleEnv exampleSuite headersPeer) = Pass"
    by (simp add: TestGetBlockHeaders_def dial_def headersPeer_def headersConn_def
          exampleConn_def exampleSuite_len Let_def b n)
  from TestGetBlockHeaders_spec [of exampleEnv exampleSuite headersPeer] p
  show ?thesis by blast
qed

theorem TestGetBlockHeaders_counterexample:
  "fst (TestGetBlockHeaders exampleEnv exampleSuite emptyHeadersPeer) = Pass \<and>
   emptyHeadersPeer 0 = Some emptyHeadersConn \<and>
   reads emptyHeadersConn 0 = BlockHeaders [] \<and>
   reads emptyHeadersConn 0 \<noteq>
     BlockHeaders [Header (blocks (chain exampleSuite) ! 1),
                   Header (blocks (chain exampleSuite) ! 3)]"
  by (simp add: TestGetBlockHeaders_def dial_def emptyHeadersPeer_def emptyHeadersConn_def
        exampleConn_def exampleSuite_len)

text \<open>
  Claim C3 (propagation). \<open>TestBroadcast\<close> passes exactly when both connections are set up,
  the full chain has a block \<open>N\<close> = length of the working chain, the announcement of that
  block with the full chain's total difficulty \<open>TD (N + 1)\<close> is written on the first
  connection, the second connection then delivers a NewBlock with the same header and total
  difficulty or a NewBlockHashes whose first hash is the announced block's, and the target
  reports the new head. When it passes, the announced block has been appended to the
  working chain, and the announcement written is the one described.
\<close>

theorem TestBroadcast_spec:
  "(fst (TestBroadcast E s ds) = Pass \<longleftrightarrow>
     (\<exists>sendConn receiveConn td.
         setupConnection s ds 0 = (Some sendConn, [EvExchange 0 (chain s) None]) \<and>
         setupConnection s ds 1 = (Some receiveConn, [EvExchange 1 (chain s) None]) \<and>
         length (blocks (chain s)) < length (blocks (fullChain s)) \<and>
         TD (fullChain s) (length (blocks (chain s)) + 1) = Inr td \<and>
         \<not> writeErr sendConn
             (NewBlock \<lparr>Block = blocks (fullChain s) ! length (blocks (chain s)), bTD = td\<rparr>) \<and>
         ((\<exists>m. reads receiveConn 0 = NewBlock m \<and>
               Header (Block m) = Header (blocks (fullChain s) ! length (blocks (chain s))) \<and>
               bTD m = td) \<or>
          (\<exists>first rest. reads receiveConn 0 = NewBlockHashes (first # rest) \<and>
               fst first = Hash E (Header (blocks (fullChain s) ! length (blocks (chain s)))))) \<and>
         waitForBlock receiveConn (blocks (fullChain s) ! length (blocks (chain s)))))
   \<and> (fst (TestBroadcast E s ds) = Pass \<longrightarrow>
        (\<exists>td. TD (fullChain s) (length (blocks (chain s)) + 1) = Inr td \<and>
           snd (TestBroadcast E s ds) =
           (s\<lparr>chain := (chain s)\<lparr>blocks := blocks (chain s) @
                                  [blocks (fullChain s) ! length (blocks (chain s))]\<rparr>\<rparr>,
            [EvExchange 0 (chain s) None, EvExchange 1 (chain s) None,
             EvWrite 0 (NewBlock \<lparr>Block = blocks (fullChain s) ! length (blocks (chain s)),
                                  bTD = td\<rparr>)])))"
  (is "(?L \<longleftrightarrow> ?R) \<and> (?L \<longrightarrow> ?S)")
proof (intro conjI iffI impI)
  assume ?L
  then show ?R
    by (auto simp: TestBroadcast_def Let_def testAnnounce_def appendBlock_def Head_def
          setupConnection_Some waitAnnounce_Pass
          split: prod.splits option.splits sum.splits if_splits)
next
  assume ?R
  then obtain sendConn receiveConn td where
    s0: "setupConnection s ds 0 = (Some sendConn, [EvExchange 0 (chain s) None])" and
    s1: "setupConnection s ds 1 = (Some receiveConn, [EvExchange 1 (chain s) None])" and
    n: "length (blocks (chain s)) < length (blocks (fullChain s))" and
    td: "TD (fullChain s) (length (blocks (chain s)) + 1) = Inr td" and
    w: "\<not> writeErr sendConn
          (NewBlock \<lparr>Block = blocks (fullChain s) ! length (blocks (chain s)), bTD = td\<rparr>)" and
    r: "(\<exists>m. reads receiveConn 0 = NewBlock m \<and>
               Header (Block m) = Header (blocks (fullChain s) ! length (blocks (chain s))) \<and>
               bTD m = td) \<or>
          (\<exists>first rest. reads receiveConn 0 = NewBlockHashes (first # rest) \<and>
               fst first = Hash E (Header (blocks (fullChain s) ! length (blocks (chain s)))))" and
    wf: "waitForBlock receiveConn (blocks (fullChain s) ! length (blocks (chain s)))"
    by blast
  from r have wa: "waitAnnounce E receiveConn
      \<lparr>Block = blocks (fullChain s) ! length (blocks (chain s)), bTD = td\<rparr> = Pass"
    by (simp add: waitAnnounce_Pass)
  from td have td': "TD (fullChain s) (Suc (length (blocks (chain s)))) = Inr td"
    by simp
  show ?L
    using s0 s1 n td' w wa wf
    by (simp add: TestBroadcast_def Let_def testAnnounce_def appendBlock_def Head_def)
next
  assume ?L
  then show ?S
    by (auto simp: TestBroadcast_def Let_def testAnnounce_def appendBlock_def Head_def
          setupConnection_Some
          split: prod.splits option.splits sum.splits if_splits)
qed


theorem TestBroadcast_spec_witness:
  "fst (TestBroadcast exampleEnv exampleSuite announcingPeer) = Pass \<and>
   (\<exists>sendConn receiveConn td.
       setupConnection exampleSuite announcingPeer 0
         = (Some sendConn, [EvExchange 0 (chain exampleSuite) None]) \<and>
       setupConnection exampleSuite announcingPeer 1
         = (Some receiveConn, [EvExchange 1 (chain exampleSuite) None]) \<and>
       TD (fullChain exampleSuite) (length (blocks (chain exampleSuite)) + 1) = Inr td \<and>
       reads receiveConn 0 = NewBlockHashes [(1001, 1000)]) \<and>
   length (blocks (chain (fst (snd (TestBroadcast exampleEnv exampleSuite announcingPeer)))))
     = 1001"
proof -
  have b: "blocks (fullChain exampleSuite) ! 1000 = exampleBlock 1000"
    by (simp add: exampleSuite_def exampleFull_def)
  have h: "Hash exampleEnv (Header (exampleBlock 1000)) = 1001"
    by (simp add: exampleEnv_def exampleBlock_def)
  have c: "setupConnection exampleSuite announcingPeer k
             = (Some announcingConn, [EvExchange k (chain exampleSuite) None])" for k
    by (simp add: setupConnection_def dial_def announcingPeer_def announcingConn_def
          exampleConn_def)
  have r: "reads announcingConn 0 = NewBlockHashes [(1001, 1000)]"
    and w: "\<not> writeErr announcingConn m" and f: "waitForBlock announcingConn x" for m x
    by (simp_all add: announcingConn_def exampleConn_def)
  have l: "length (blocks (fullChain exampleSuite)) = 1001"
    by (simp add: exampleSuite_def exampleFull_len)
  have t: "TD (fullChain exampleSuite) (length (blocks (chain exampleSuite)) + 1)
            = Inr (sumDifficulty 0 (blocks (fullChain exampleSuite)))"
    by (simp add: TD_def exampleSuite_len l)
  have p: "fst (TestBroadcast exampleEnv exampleSuite announcingPeer) = Pass"
    using TestBroadcast_spec [of exampleEnv exampleSuite announcingPeer] c r w f t
    by (simp add: exampleSuite_len l b h)
  from TestBroadcast_spec [of exampleEnv exampleSuite announcingPeer] p c r t
  show ?thesis
    by (auto simp: exampleSuite_len)
qed

text \<open>
  Claim C4 (stale announcement). On two connections that are set up, with a working chain
  of at least three blocks, \<open>TestOldAnnounce\<close> writes on the first connection the
  announcement of the block in the middle of the working chain, which lies below the head,
  with a total difficulty (the block's own difficulty) that does not exceed the total
  difficulty of the working chain. The scenario passes exactly when the read on the second
  connection returns an Error whose text contains "timeout"; a NewBlock or a NewBlockHashes
  on the second connection ends it with \<open>t.Fatalf\<close>.
\<close>

theorem TestOldAnnounce_spec:
  assumes "setupConnection s ds 0 = (Some sendConn, e0)"
    and "setupConnection s ds 1 = (Some receiveConn, e1)"
    and "2 < length (blocks (chain s))"
    and "\<not> writeErr sendConn (NewBlock (oldBlockAnnounce s))"
  shows "(fst (TestOldAnnounce s ds) = Pass \<longleftrightarrow>
            (\<exists>e. reads receiveConn 0 = Error e \<and> Contains e ''timeout''))
       \<and> ((\<exists>m. reads receiveConn 0 = NewBlock m) \<or> (\<exists>m. reads receiveConn 0 = NewBlockHashes m)
            \<longrightarrow> fst (TestOldAnnounce s ds) = Fatal)
       \<and> snd (snd (TestOldAnnounce s ds)) = e0 @ e1 @ [EvWrite 0 (NewBlock (oldBlockAnnounce s))]
       \<and> Block (oldBlockAnnounce s) = blocks (chain s) ! (length (blocks (chain s)) div 2)
       \<and> length (blocks (chain s)) div 2 < length (blocks (chain s)) - 1
       \<and> (\<exists>td. TD (chain s) (Len (chain s)) = Inr td \<and> bTD (oldBlockAnnounce s) \<le> td)"
proof -
  have lt: "length (blocks (chain s)) div 2 < length (blocks (chain s))"
    using assms(3) by simp
  have v: "fst (TestOldAnnounce s ds) = fst (oldAnnounce s sendConn receiveConn)"
    and e: "snd (snd (TestOldAnnounce s ds)) = e0 @ e1 @ snd (oldAnnounce s sendConn receiveConn)"
    using assms(1,2) by (simp_all add: TestOldAnnounce_def split: prod.splits)
  have 1: "fst (oldAnnounce s sendConn receiveConn) = Pass \<longleftrightarrow>
            (\<exists>e. reads receiveConn 0 = Error e \<and> Contains e ''timeout'')"
    using lt assms(4) by (auto simp: oldAnnounce_def Let_def split: msg.splits)
  have 2: "(\<exists>m. reads receiveConn 0 = NewBlock m) \<or> (\<exists>m. reads receiveConn 0 = NewBlockHashes m)
            \<longrightarrow> fst (oldAnnounce s sendConn receiveConn) = Fatal"
    using lt assms(4) by (auto simp: oldAnnounce_def Let_def)
  have 3: "snd (oldAnnounce s sendConn receiveConn) = [EvWrite 0 (NewBlock (oldBlockAnnounce s))]"
    using lt assms(4) by (auto simp: oldAnnounce_def Let_def split: msg.splits)
  have 4: "Block (oldBlockAnnounce s) = blocks (chain s) ! (length (blocks (chain s)) div 2)"
    by (simp add: oldBlockAnnounce_def)
  have 5: "length (blocks (chain s)) div 2 < length (blocks (chain s)) - 1"
    using assms(3) by arith
  have 6: "\<exists>td. TD (chain s) (Len (chain s)) = Inr td \<and> bTD (oldBlockAnnounce s) \<le> td"
    using nth_le_TD [OF lt] by (simp add: oldBlockAnnounce_def)
  show ?thesis
    using 1 2 3 4 5 6 v e by simp
qed

theorem TestOldAnnounce_spec_witness:
  "setupConnection exampleSuite silentPeer 0
     = (Some silentConn, [EvExchange 0 (chain exampleSuite) None]) \<and>
   setupConnection exampleSuite silentPeer 1
     = (Some silentConn, [EvExchange 1 (chain exampleSuite) None]) \<and>
   2 < length (blocks (chain exampleSuite)) \<and>
   \<not> writeErr silentConn (NewBlock (oldBlockAnnounce exampleSuite)) \<and>
   reads silentConn 0 = Error ''could not read from connection: i/o timeout'' \<and>
   Contains ''could not read from connection: i/o timeout'' ''timeout'' \<and>
   fst (TestOldAnnounce exampleSuite silentPeer) = Pass \<and>
   Block (oldBlockAnnounce exampleSuite) = blocks (chain exampleSuite) ! 500 \<and>
   (500::nat) < 999"
proof -
  have c: "setupConnection exampleSuite silentPeer k
             = (Some silentConn, [EvExchange k (chain exampleSuite) None])" for k
    by (simp add: setupConnection_def dial_def silentPeer_def silentConn_def exampleConn_def)
  have w: "\<not> writeErr silentConn (NewBlock (oldBlockAnnounce exampleSuite))"
    by (simp add: silentConn_def exampleConn_def)
  have l: "2 < length (blocks (chain exampleSuite))"
    by (simp add: exampleSuite_len)
  have r: "reads silentConn 0 = Error ''could not read from connection: i/o timeout''"
    by (simp add: silentConn_def exampleConn_def)
  have t: "Contains ''could not read from connection: i/o timeout'' ''timeout''"
    by simp
  from TestOldAnnounce_spec [OF c c l w] c w l r t
  show ?thesis
    by (simp add: exampleSuite_len)
qed


text \<open>
  Claim C5 (malicious status). When \<open>TestMaliciousStatus\<close> passes, the Status it handed to
  the status exchange carries the total difficulty \<open>largeNumber(2)\<close>, and the first message
  read after the exchange, with no other message read in between, is a Disconnect or an
  Error.
\<close>

theorem TestMaliciousStatus_pass:
  assumes "fst (TestMaliciousStatus E s ds) = Pass"
  shows "\<exists>conn st. dial ds 0 = Some conn \<and>
           snd (snd (TestMaliciousStatus E s ds)) = [EvExchange 0 (chain s) (Some st)] \<and>
           sTD st = largeNumber E 2 \<and>
           ((\<exists>r. reads conn 0 = Disconnect r) \<or> (\<exists>e. reads conn 0 = Error e))"
  using assms
  by (auto simp: TestMaliciousStatus_def maliciousStatus_def Let_def
           split: option.splits if_splits msg.splits)

theorem TestMaliciousStatus_pass_witness:
  "fst (TestMaliciousStatus exampleEnv exampleSuite disconnectingPeer) = Pass \<and>
   (\<exists>conn st. dial disconnectingPeer 0 = Some conn \<and>
       snd (snd (TestMaliciousStatus exampleEnv exampleSuite disconnectingPeer))
         = [EvExchange 0 (chain exampleSuite) (Some st)] \<and>
       sTD st = largeNumber exampleEnv 2 \<and>
       ((\<exists>r. reads conn 0 = Disconnect r) \<or> (\<exists>e. reads conn 0 = Error e)))"
proof -
  have p: "fst (TestMaliciousStatus exampleEnv exampleSuite disconnectingPeer) = Pass"
    by (simp add: TestMaliciousStatus_def dial_def disconnectingPeer_def disconnectingConn_def
          exampleConn_def Len_def exampleSuite_len)
  from TestMaliciousStatus_pass [OF p] p show ?thesis
    by simp
qed

text \<open>
  Claim C10 (the reply to the malicious status). Once the connection is dialled, the
  handshake is done and the working chain is not empty: if the message that the status
  exchange returns is not a Status, \<open>TestMaliciousStatus\<close> ends with \<open>t.Fatalf\<close>, whatever
  that message is (a Disconnect or an Error included) and whatever is read later; if it is a
  Status, the scenario passes exactly when the next message read is a Disconnect or an
  Error, and ends with \<open>t.Fatalf\<close> otherwise.
\<close>

theorem TestMaliciousStatus_reply:
  assumes "dial ds 0 = Some conn" and "handshakeOk conn" and "Len (chain s) \<noteq> 0"
    and "exchange conn = Some m"
  shows "((\<forall>st. m \<noteq> Status st) \<longrightarrow> fst (TestMaliciousStatus E s ds) = Fatal) \<and>
         ((\<exists>st. m = Status st) \<longrightarrow>
            (fst (TestMaliciousStatus E s ds) = Pass \<longleftrightarrow>
               (\<exists>r. reads conn 0 = Disconnect r) \<or> (\<exists>e. reads conn 0 = Error e)) \<and>
            (fst (TestMaliciousStatus E s ds) \<noteq> Pass \<longrightarrow>
               fst (TestMaliciousStatus E s ds) = Fatal))"
  using assms
  by (auto simp: TestMaliciousStatus_def Let_def split: msg.splits)

theorem TestMaliciousStatus_reply_witness:
  "dial refusingPeer 0 = Some refusingConn \<and> handshakeOk refusingConn \<and>
   Len (chain exampleSuite) \<noteq> 0 \<and> exchange refusingConn = Some (Disconnect 3) \<and>
   (\<forall>st. Disconnect 3 \<noteq> Status st) \<and>
   fst (TestMaliciousStatus exampleEnv exampleSuite refusingPeer) = Fatal \<and>
   dial disconnectingPeer 0 = Some disconnectingConn \<and> handshakeOk disconnectingConn \<and>
   exchange disconnectingConn = Some (Status exampleStatus) \<and>
   reads disconnectingConn 0 = Disconnect 3 \<and>
   fst (TestMaliciousStatus exampleEnv exampleSuite disconnectingPeer) = Pass"
proof -
  have d1: "dial refusingPeer 0 = Some refusingConn"
    and h1: "handshakeOk refusingConn"
    and x1: "exchange refusingConn = Some (Disconnect 3)"
    by (simp_all add: dial_def refusingPeer_def refusingConn_def exampleConn_def)
  have d2: "dial disconnectingPeer 0 = Some disconnectingConn"
    and h2: "handshakeOk disconnectingConn"
    and x2: "exchange disconnectingConn = Some (Status exampleStatus)"
    and r2: "reads disconnectingConn 0 = Disconnect 3"
    by (simp_all add: dial_def disconnectingPeer_def disconnectingConn_def exampleConn_def)
  have l: "Len (chain exampleSuite) \<noteq> 0"
    by (simp add: Len_def exampleSuite_len)
  from TestMaliciousStatus_reply [OF d1 h1 l x1, of exampleEnv]
    TestMaliciousStatus_reply [OF d2 h2 l x2, of exampleEnv]
    d1 h1 x1 d2 h2 x2 r2 l
  show ?thesis
    by simp
qed


section \<open>What the scenarios do to the suite\<close>

lemma TestStatus_suite: "fst (snd (TestStatus s ds)) = s"
  by (simp add: TestStatus_def split: option.splits msg.splits)

lemma TestMaliciousStatus_suite: "fst (snd (TestMaliciousStatus E s ds)) = s"
  by (simp add: TestMaliciousStatus_def Let_def split: option.splits msg.splits)

lemma TestGetBlockHeaders_suite: "fst (snd (TestGetBlockHeaders E s ds)) = s"
  by (simp add: TestGetBlockHeaders_def Let_def split: option.splits msg.splits)

lemma TestGetBlockBodies_suite: "fst (snd (TestGetBlockBodies E s ds)) = s"
  by (simp add: TestGetBlockBodies_def Let_def split: option.splits msg.splits)

lemma TestMaliciousHandshake_suite: "fst (snd (TestMaliciousHandshake E s ds)) = s"
  by (simp add: TestMaliciousHandshake_def split: option.splits prod.splits)

lemma TestOldAnnounce_suite: "fst (snd (TestOldAnnounce s ds)) = s"
  by (simp add: TestOldAnnounce_def split: option.splits prod.splits)

lemma TestBroadcast_suite:
  "fst (snd (TestBroadcast E s ds)) = s \<or>
   length (blocks (chain s)) < length (blocks (fullChain s)) \<and>
   fst (snd (TestBroadcast E s ds))
     = appendBlock s (blocks (fullChain s) ! length (blocks (chain s)))"
  by (simp add: TestBroadcast_def Let_def split: option.splits prod.splits sum.splits)

lemma TestLargeAnnounce_suite:
  "fst (snd (TestLargeAnnounce E s ds)) = s \<or>
   length (blocks (chain s)) < length (blocks (fullChain s)) \<and>
   fst (snd (TestLargeAnnounce E s ds))
     = appendBlock s (blocks (fullChain s) ! length (blocks (chain s)))"
proof (cases "TD (fullChain s) (length (blocks (chain s)) + 1)")
  case (Inl err)
  then show ?thesis by (simp add: TestLargeAnnounce_def)
next
  case (Inr td)
  show ?thesis
  proof (cases "length (blocks (chain s)) < length (blocks (fullChain s))")
    case False
    with Inr show ?thesis by (simp add: TestLargeAnnounce_def)
  next
    case True
    obtain v0 es where r: "largeAnnounceRounds s ds 0
        [\<lparr>Block = largeBlock E, bTD = td\<rparr>,
         \<lparr>Block = blocks (fullChain s) ! length (blocks (chain s)), bTD = largeNumber E 2\<rparr>,
         \<lparr>Block = largeBlock E, bTD = largeNumber E 2\<rparr>] = (v0, es)"
      by (cases "largeAnnounceRounds s ds 0
        [\<lparr>Block = largeBlock E, bTD = td\<rparr>,
         \<lparr>Block = blocks (fullChain s) ! length (blocks (chain s)), bTD = largeNumber E 2\<rparr>,
         \<lparr>Block = largeBlock E, bTD = largeNumber E 2\<rparr>]")
    obtain c3 e3 where s3: "setupConnection s ds 3 = (c3, e3)"
      by (cases "setupConnection s ds 3")
    obtain c4 e4 where s4: "setupConnection s ds 4 = (c4, e4)"
      by (cases "setupConnection s ds 4")
    show ?thesis
    proof (cases "v0 = Pass \<and> c3 \<noteq> None \<and> c4 \<noteq> None")
      case False
      with Inr True r s3 s4 show ?thesis
        by (auto simp: TestLargeAnnounce_def Let_def simp del: largeAnnounceRounds.simps
              split: option.splits)
    next
      case ok: True
      then obtain sendConn receiveConn where c: "c3 = Some sendConn" "c4 = Some receiveConn"
        by auto
      obtain v e5 where a: "testAnnounce E 3 sendConn receiveConn
          \<lparr>Block = blocks (fullChain s) ! length (blocks (chain s)), bTD = td\<rparr> = (v, e5)"
        by (cases "testAnnounce E 3 sendConn receiveConn
          \<lparr>Block = blocks (fullChain s) ! length (blocks (chain s)), bTD = td\<rparr>")
      from Inr True r s3 s4 ok c a show ?thesis
        by (simp add: TestLargeAnnounce_def Let_def del: largeAnnounceRounds.simps)
    qed
  qed
qed

lemma runTest_suite:
  "fst (snd (runTest E s sc ds)) = s \<or>
   length (blocks (chain s)) < length (blocks (fullChain s)) \<and>
   fst (snd (runTest E s sc ds))
     = appendBlock s (blocks (fullChain s) ! length (blocks (chain s)))"
  using TestBroadcast_suite [of E s ds] TestLargeAnnounce_suite [of E s ds]
  by (cases sc)
     (simp_all add: TestStatus_suite TestMaliciousStatus_suite TestGetBlockHeaders_suite
        TestGetBlockBodies_suite TestMaliciousHandshake_suite TestOldAnnounce_suite)

lemma appendBlock_prefix:
  assumes "take (length (blocks (chain s))) (blocks (fullChain s)) = blocks (chain s)"
    and "length (blocks (chain s)) < length (blocks (fullChain s))"
  shows "take (length (blocks (chain (appendBlock s (blocks (fullChain s) ! length (blocks (chain s)))))))
           (blocks (fullChain (appendBlock s (blocks (fullChain s) ! length (blocks (chain s))))))
         = blocks (chain (appendBlock s (blocks (fullChain s) ! length (blocks (chain s)))))"
  using assms by (simp add: appendBlock_def take_Suc_conv_app_nth)

lemma runTest_prefix:
  assumes "take (length (blocks (chain s))) (blocks (fullChain s)) = blocks (chain s)"
  shows "fullChain (fst (snd (runTest E s sc ds))) = fullChain s \<and>
         take (length (blocks (chain (fst (snd (runTest E s sc ds))))))
              (blocks (fullChain (fst (snd (runTest E s sc ds)))))
           = blocks (chain (fst (snd (runTest E s sc ds))))"
proof -
  from runTest_suite [of E s sc ds] show ?thesis
  proof
    assume "fst (snd (runTest E s sc ds)) = s"
    with assms show ?thesis by simp
  next
    assume a: "length (blocks (chain s)) < length (blocks (fullChain s)) \<and>
      fst (snd (runTest E s sc ds))
        = appendBlock s (blocks (fullChain s) ! length (blocks (chain s)))"
    then have "fullChain (fst (snd (runTest E s sc ds))) = fullChain s"
      by (simp add: appendBlock_def)
    moreover from a appendBlock_prefix [OF assms]
    have "take (length (blocks (chain (fst (snd (runTest E s sc ds))))))
              (blocks (fullChain (fst (snd (runTest E s sc ds)))))
           = blocks (chain (fst (snd (runTest E s sc ds))))"
      by simp
    ultimately show ?thesis by simp
  qed
qed

lemma runTests_prefix:
  "take (length (blocks (chain s))) (blocks (fullChain s)) = blocks (chain s) \<Longrightarrow>
   fullChain (runTests E s runs) = fullChain s \<and>
   take (length (blocks (chain (runTests E s runs)))) (blocks (fullChain (runTests E s runs)))
     = blocks (chain (runTests E s runs))"
proof (induction runs arbitrary: s)
  case Nil
  then show ?case by simp
next
  case (Cons r runs)
  obtain sc ds where r: "r = (sc, ds)" by (cases r)
  obtain v s' es where t: "runTest E s sc ds = (v, s', es)" by (cases "runTest E s sc ds")
  have "fullChain s' = fullChain s \<and>
    take (length (blocks (chain s'))) (blocks (fullChain s')) = blocks (chain s')"
    using runTest_prefix [OF Cons.prems, of E sc ds] unfolding t by auto
  then have s': "fullChain s' = fullChain s"
    "take (length (blocks (chain s'))) (blocks (fullChain s')) = blocks (chain s')"
    by blast+
  show ?case
  proof (cases "v = Panic")
    case True
    with r t s' show ?thesis by auto
  next
    case False
    with r t s' Cons.IH [OF s'(2)] show ?thesis by auto
  qed
qed

lemma runTest_length:
  "length (blocks (chain s)) \<le> length (blocks (chain (fst (snd (runTest E s sc ds)))))"
  using runTest_suite [of E s sc ds] by (auto simp: appendBlock_def)

lemma runTests_length:
  "length (blocks (chain s)) \<le> length (blocks (chain (runTests E s runs)))"
proof (induction runs arbitrary: s)
  case Nil
  then show ?case by simp
next
  case (Cons r runs)
  obtain sc ds where r: "r = (sc, ds)" by (cases r)
  obtain v s' es where t: "runTest E s sc ds = (v, s', es)" by (cases "runTest E s sc ds")
  from runTest_length [of s E sc ds] t
  have "length (blocks (chain s)) \<le> length (blocks (chain s'))"
    by simp
  with Cons.IH [of s'] r t show ?case
    by (cases "v = Panic") auto
qed

lemma NewSuite_prefix:
  assumes "NewSuite dest loaded = Inr s0"
  shows "loaded = Inr (fullChain s0) \<and> length (blocks (chain s0)) = 1000 \<and>
         Shorten (fullChain s0) 1000 = Inr (chain s0) \<and>
         take (length (blocks (chain s0))) (blocks (fullChain s0)) = blocks (chain s0)"
  using assms
  by (auto simp: NewSuite_def Shorten_def split: sum.splits if_splits)

lemma setupConnection_events:
  "ev \<in> set (snd (setupConnection s ds k)) \<Longrightarrow> ev = EvExchange k (chain s) None"
  by (simp add: setupConnection_def split: option.splits if_splits)

lemma largeAnnounceRounds_shape:
  "\<exists>es'. snd (largeAnnounceRounds s ds k (a # as)) = snd (setupConnection s ds k) @ es' \<and>
         (es' = [] \<or> es' = [EvWrite k (NewBlock a)] \<or>
          es' = [EvWrite k (NewBlock a)] @ snd (largeAnnounceRounds s ds (Suc k) as))"
  by (simp add: Let_def split: prod.splits option.splits msg.splits)

lemma largeAnnounceRounds_events:
  "EvExchange j c ov \<in> set (snd (largeAnnounceRounds s ds k as)) \<Longrightarrow> c = chain s \<and> ov = None"
proof (induction as arbitrary: k)
  case Nil
  then show ?case by simp
next
  case (Cons a as)
  from largeAnnounceRounds_shape [of s ds k a as] obtain es' where
    e: "snd (largeAnnounceRounds s ds k (a # as)) = snd (setupConnection s ds k) @ es'" and
    s: "es' = [] \<or> es' = [EvWrite k (NewBlock a)] \<or>
        es' = [EvWrite k (NewBlock a)] @ snd (largeAnnounceRounds s ds (Suc k) as)"
    by blast
  from Cons.prems e have "EvExchange j c ov \<in> set (snd (setupConnection s ds k)) \<or>
      EvExchange j c ov \<in> set es'"
    by simp
  then show ?case
  proof
    assume "EvExchange j c ov \<in> set (snd (setupConnection s ds k))"
    from setupConnection_events [OF this] show ?thesis by simp
  next
    assume "EvExchange j c ov \<in> set es'"
    with s have "EvExchange j c ov \<in> set (snd (largeAnnounceRounds s ds (Suc k) as))"
      by auto
    from Cons.IH [OF this] show ?thesis .
  qed
qed

lemma handshakeRounds_shape:
  "snd (handshakeRounds ds k conn (h # hs)) = [EvWrite k (Hello h)] \<or>
   (\<exists>conn'. snd (handshakeRounds ds k conn (h # hs))
        = EvWrite k (Hello h) # snd (handshakeRounds ds (Suc k) conn' hs))"
proof (cases "dial ds (Suc k)")
  case None
  then show ?thesis by simp
next
  case (Some conn')
  then have "snd (handshakeRounds ds k conn (h # hs)) = [EvWrite k (Hello h)] \<or>
      snd (handshakeRounds ds k conn (h # hs))
        = EvWrite k (Hello h) # snd (handshakeRounds ds (Suc k) conn' hs)"
    by (simp split: prod.splits del: handshakeReads.simps)
  then show ?thesis by blast
qed

lemma handshakeRounds_events:
  "ev \<in> set (snd (handshakeRounds ds k conn hs)) \<Longrightarrow> \<exists>j m. ev = EvWrite j m"
proof (induction hs arbitrary: k conn)
  case Nil
  then show ?case by simp
next
  case (Cons h hs)
  from handshakeRounds_shape [of ds k conn h hs] show ?case
  proof
    assume "snd (handshakeRounds ds k conn (h # hs)) = [EvWrite k (Hello h)]"
    with Cons.prems show ?thesis by simp
  next
    assume "\<exists>conn'. snd (handshakeRounds ds k conn (h # hs))
        = EvWrite k (Hello h) # snd (handshakeRounds ds (Suc k) conn' hs)"
    then obtain conn' where "snd (handshakeRounds ds k conn (h # hs))
        = EvWrite k (Hello h) # snd (handshakeRounds ds (Suc k) conn' hs)"
      by blast
    with Cons.prems have "ev = EvWrite k (Hello h) \<or>
        ev \<in> set (snd (handshakeRounds ds (Suc k) conn' hs))"
      by simp
    with Cons.IH [of "Suc k" conn'] show ?thesis by blast
  qed
qed

lemma testAnnounce_events:
  "snd (testAnnounce E k sendConn receiveConn a) = [EvWrite k (NewBlock a)]"
  by (simp add: testAnnounce_def)

lemma TestStatus_events:
  "snd (snd (TestStatus s ds)) = [] \<or> snd (snd (TestStatus s ds)) = [EvExchange 0 (chain s) None]"
  by (simp add: TestStatus_def split: option.splits msg.splits)

lemma TestGetBlockHeaders_events:
  "ev \<in> set (snd (snd (TestGetBlockHeaders E s ds))) \<Longrightarrow>
     ev = EvExchange 0 (chain s) None \<or> (\<exists>j m. ev = EvWrite j m)"
  by (auto simp: TestGetBlockHeaders_def Let_def split: option.splits msg.splits if_splits)

lemma TestGetBlockBodies_events:
  "ev \<in> set (snd (snd (TestGetBlockBodies E s ds))) \<Longrightarrow>
     ev = EvExchange 0 (chain s) None \<or> (\<exists>j m. ev = EvWrite j m)"
  by (auto simp: TestGetBlockBodies_def Let_def split: option.splits msg.splits if_splits)

lemma TestMaliciousStatus_events:
  "snd (snd (TestMaliciousStatus E s ds)) = [] \<or>
   (\<exists>conn. dial ds 0 = Some conn \<and> Len (chain s) \<noteq> 0 \<and>
      snd (snd (TestMaliciousStatus E s ds))
        = [EvExchange 0 (chain s) (Some (maliciousStatus E s conn))])"
proof (cases "dial ds 0")
  case None
  then show ?thesis by (simp add: TestMaliciousStatus_def)
next
  case (Some conn)
  then have "snd (snd (TestMaliciousStatus E s ds)) = [] \<or>
      Len (chain s) \<noteq> 0 \<and>
      snd (snd (TestMaliciousStatus E s ds))
        = [EvExchange 0 (chain s) (Some (maliciousStatus E s conn))]"
    by (simp add: TestMaliciousStatus_def Let_def split: option.splits msg.splits)
  with Some show ?thesis by blast
qed

lemma TestMaliciousHandshake_events:
  "ev \<in> set (snd (snd (TestMaliciousHandshake E s ds))) \<Longrightarrow> \<exists>j m. ev = EvWrite j m"
proof (cases "dial ds 0")
  case None
  assume "ev \<in> set (snd (snd (TestMaliciousHandshake E s ds)))"
  with None show ?thesis by (simp add: TestMaliciousHandshake_def)
next
  case (Some conn)
  assume "ev \<in> set (snd (snd (TestMaliciousHandshake E s ds)))"
  with Some have "ev \<in> set (snd (handshakeRounds ds 0 conn (handshakes E (pub0 conn))))"
    by (simp add: TestMaliciousHandshake_def split: prod.splits)
  then show ?thesis by (rule handshakeRounds_events)
qed

lemma oldAnnounce_events:
  "ev \<in> set (snd (oldAnnounce s sendConn receiveConn)) \<Longrightarrow> \<exists>j m. ev = EvWrite j m"
  by (auto simp: oldAnnounce_def Let_def split: msg.splits if_splits)

lemma TestOldAnnounce_events:
  assumes "ev \<in> set (snd (snd (TestOldAnnounce s ds)))"
  shows "ev \<in> set (snd (setupConnection s ds 0)) \<or> ev \<in> set (snd (setupConnection s ds 1)) \<or>
         (\<exists>j m. ev = EvWrite j m)"
proof -
  obtain c0 e0 where s0: "setupConnection s ds 0 = (c0, e0)"
    by (cases "setupConnection s ds 0")
  obtain c1 e1 where s1: "setupConnection s ds 1 = (c1, e1)"
    by (cases "setupConnection s ds 1")
  show ?thesis
  proof (cases "c0 \<noteq> None \<and> c1 \<noteq> None")
    case False
    with assms s0 s1 show ?thesis
      by (auto simp: TestOldAnnounce_def split: option.splits)
  next
    case True
    then obtain sendConn receiveConn where c: "c0 = Some sendConn" "c1 = Some receiveConn"
      by auto
    with assms s0 s1 have "ev \<in> set e0 \<or> ev \<in> set e1 \<or>
        ev \<in> set (snd (oldAnnounce s sendConn receiveConn))"
      by (auto simp: TestOldAnnounce_def split: prod.splits)
    with s0 s1 oldAnnounce_events [of ev s sendConn receiveConn] show ?thesis
      by auto
  qed
qed

lemma TestBroadcast_events:
  assumes "ev \<in> set (snd (snd (TestBroadcast E s ds)))"
  shows "ev \<in> set (snd (setupConnection s ds 0)) \<or> ev \<in> set (snd (setupConnection s ds 1)) \<or>
         (\<exists>j m. ev = EvWrite j m)"
proof -
  obtain c0 e0 where s0: "setupConnection s ds 0 = (c0, e0)"
    by (cases "setupConnection s ds 0")
  obtain c1 e1 where s1: "setupConnection s ds 1 = (c1, e1)"
    by (cases "setupConnection s ds 1")
  show ?thesis
  proof (cases "c0 \<noteq> None \<and> c1 \<noteq> None")
    case False
    with assms s0 s1 show ?thesis
      by (auto simp: TestBroadcast_def split: option.splits)
  next
    case True
    then obtain sendConn receiveConn where c: "c0 = Some sendConn" "c1 = Some receiveConn"
      by auto
    have "snd (snd (TestBroadcast E s ds)) = e0 @ e1 \<or>
          (\<exists>a. snd (snd (TestBroadcast E s ds)) = e0 @ e1 @ [EvWrite 0 (NewBlock a)])"
      using s0 s1 c
      by (auto simp: TestBroadcast_def Let_def testAnnounce_def
               split: sum.splits option.splits)
    with assms s0 s1 show ?thesis
      by auto
  qed
qed


lemma TestLargeAnnounce_events:
  assumes "EvExchange j c ov \<in> set (snd (snd (TestLargeAnnounce E s ds)))"
  shows "c = chain s \<and> ov = None"
proof (cases "TD (fullChain s) (length (blocks (chain s)) + 1)")
  case (Inl err)
  with assms show ?thesis by (simp add: TestLargeAnnounce_def)
next
  case (Inr td)
  show ?thesis
  proof (cases "length (blocks (chain s)) < length (blocks (fullChain s))")
    case False
    with Inr assms show ?thesis by (simp add: TestLargeAnnounce_def)
  next
    case True
    obtain v0 es where r: "largeAnnounceRounds s ds 0
        [\<lparr>Block = largeBlock E, bTD = td\<rparr>,
         \<lparr>Block = blocks (fullChain s) ! length (blocks (chain s)), bTD = largeNumber E 2\<rparr>,
         \<lparr>Block = largeBlock E, bTD = largeNumber E 2\<rparr>] = (v0, es)"
      by (cases "largeAnnounceRounds s ds 0
        [\<lparr>Block = largeBlock E, bTD = td\<rparr>,
         \<lparr>Block = blocks (fullChain s) ! length (blocks (chain s)), bTD = largeNumber E 2\<rparr>,
         \<lparr>Block = largeBlock E, bTD = largeNumber E 2\<rparr>]")
    obtain c3 e3 where s3: "setupConnection s ds 3 = (c3, e3)"
      by (cases "setupConnection s ds 3")
    obtain c4 e4 where s4: "setupConnection s ds 4 = (c4, e4)"
      by (cases "setupConnection s ds 4")
    have "set (snd (snd (TestLargeAnnounce E s ds)))
            \<subseteq> set es \<union> set e3 \<union> set e4 \<union> {ev. \<exists>k m. ev = EvWrite k m}"
      using Inr True r s3 s4
      by (auto simp: TestLargeAnnounce_def Let_def testAnnounce_def
               simp del: largeAnnounceRounds.simps split: option.splits if_splits)
    with assms have "EvExchange j c ov \<in> set es \<or> EvExchange j c ov \<in> set e3 \<or>
        EvExchange j c ov \<in> set e4"
      by auto
    moreover have "EvExchange j c ov \<in> set es \<Longrightarrow> c = chain s \<and> ov = None"
      by (metis r snd_conv largeAnnounceRounds_events)
    moreover have "EvExchange j c ov \<in> set e3 \<Longrightarrow> c = chain s \<and> ov = None"
      using setupConnection_events [of "EvExchange j c ov" s ds 3] s3 by simp
    moreover have "EvExchange j c ov \<in> set e4 \<Longrightarrow> c = chain s \<and> ov = None"
      using setupConnection_events [of "EvExchange j c ov" s ds 4] s4 by simp
    ultimately show ?thesis by blast
  qed
qed

lemma runTest_events:
  assumes "EvExchange j c ov \<in> set (snd (snd (runTest E s sc ds)))"
  shows "c = chain s \<and>
         (ov = None \<or>
          sc = ScMaliciousStatus \<and> Len (chain s) \<noteq> 0 \<and>
          (\<exists>conn. dial ds 0 = Some conn \<and> ov = Some (maliciousStatus E s conn)))"
proof (cases sc)
  case ScStatus
  with assms TestStatus_events [of s ds] show ?thesis by auto
next
  case ScMaliciousStatus
  with assms TestMaliciousStatus_events [of E s ds] show ?thesis by auto
next
  case ScGetBlockHeaders
  with assms TestGetBlockHeaders_events [of "EvExchange j c ov" E s ds] show ?thesis by auto
next
  case ScGetBlockBodies
  with assms TestGetBlockBodies_events [of "EvExchange j c ov" E s ds] show ?thesis by auto
next
  case ScBroadcast
  with assms TestBroadcast_events [of "EvExchange j c ov" E s ds]
    setupConnection_events [of "EvExchange j c ov" s ds 0]
    setupConnection_events [of "EvExchange j c ov" s ds 1]
  show ?thesis by auto
next
  case ScMaliciousHandshake
  with assms TestMaliciousHandshake_events [of "EvExchange j c ov" E s ds] show ?thesis by auto
next
  case ScLargeAnnounce
  with assms TestLargeAnnounce_events [of j c ov E s ds] show ?thesis by auto
next
  case ScOldAnnounce
  with assms TestOldAnnounce_events [of "EvExchange j c ov" s ds]
    setupConnection_events [of "EvExchange j c ov" s ds 0]
    setupConnection_events [of "EvExchange j c ov" s ds 1]
  show ?thesis by auto
qed

text \<open>
  Claim C6 (fork identifier of the Status), as the code has it. In every scenario each
  status exchange is given the working chain \<open>s.chain\<close>. The only Status the suite builds
  itself is the override of \<open>TestMaliciousStatus\<close>: its fork identifier is
  \<open>s.chain.ForkID()\<close>, the fork identifier of the working chain, as are its head and
  genesis hashes; its total difficulty is \<open>largeNumber(2)\<close>. The full reference chain is
  not consulted.
\<close>

theorem status_of_working_chain:
  assumes "EvExchange j c ov \<in> set (snd (snd (runTest E s sc ds)))"
  shows "c = chain s \<and>
         (\<forall>st. ov = Some st \<longrightarrow>
            sc = ScMaliciousStatus \<and>
            sForkID st = ForkID E (chain s) \<and>
            sHead st = Hash E (Header (blocks (chain s) ! (length (blocks (chain s)) - 1))) \<and>
            Genesis st = Hash E (Header (blocks (chain s) ! 0)) \<and>
            sTD st = largeNumber E 2)"
  using runTest_events [OF assms]
  by (auto simp: maliciousStatus_def Len_def)

theorem status_of_working_chain_witness:
  "EvExchange 0 (chain exampleSuite) (Some (maliciousStatus exampleEnv exampleSuite disconnectingConn))
     \<in> set (snd (snd (runTest exampleEnv exampleSuite ScMaliciousStatus disconnectingPeer))) \<and>
   sForkID (maliciousStatus exampleEnv exampleSuite disconnectingConn)
     = ForkID exampleEnv (chain exampleSuite) \<and>
   sTD (maliciousStatus exampleEnv exampleSuite disconnectingConn) = largeNumber exampleEnv 2"
proof -
  have e: "EvExchange 0 (chain exampleSuite)
             (Some (maliciousStatus exampleEnv exampleSuite disconnectingConn))
     \<in> set (snd (snd (runTest exampleEnv exampleSuite ScMaliciousStatus disconnectingPeer)))"
    by (simp add: TestMaliciousStatus_def dial_def disconnectingPeer_def disconnectingConn_def
          exampleConn_def Len_def exampleSuite_len)
  from status_of_working_chain [OF e] e show ?thesis
    by simp
qed

theorem status_forkID_counterexample:
  "snd (snd (TestMaliciousStatus exampleEnv exampleSuite disconnectingPeer))
     = [EvExchange 0 (chain exampleSuite)
          (Some (maliciousStatus exampleEnv exampleSuite disconnectingConn))] \<and>
   NewSuite 0 (Inr exampleFull) = Inr exampleSuite \<and>
   sForkID (maliciousStatus exampleEnv exampleSuite disconnectingConn) = [0] \<and>
   ForkID exampleEnv (fullChain exampleSuite) = [1] \<and>
   sForkID (maliciousStatus exampleEnv exampleSuite disconnectingConn)
     \<noteq> ForkID exampleEnv (fullChain exampleSuite)"
proof -
  have a: "snd (snd (TestMaliciousStatus exampleEnv exampleSuite disconnectingPeer))
     = [EvExchange 0 (chain exampleSuite)
          (Some (maliciousStatus exampleEnv exampleSuite disconnectingConn))]"
    by (simp add: TestMaliciousStatus_def dial_def disconnectingPeer_def disconnectingConn_def
          exampleConn_def Len_def exampleSuite_len)
  have b: "sForkID (maliciousStatus exampleEnv exampleSuite disconnectingConn) = [0]"
    by (simp add: maliciousStatus_def exampleEnv_def exampleSuite_len)
  have c: "ForkID exampleEnv (fullChain exampleSuite) = [1]"
    by (simp add: exampleEnv_def exampleSuite_def exampleFull_len)
  from a b c NewSuite_example show ?thesis
    by simp
qed


lemma TestBroadcast_example:
  "fst (TestBroadcast exampleEnv exampleSuite announcingPeer) = Pass \<and>
   fst (snd (TestBroadcast exampleEnv exampleSuite announcingPeer))
     = appendBlock exampleSuite (exampleBlock 1000)"
proof -
  have b: "blocks (fullChain exampleSuite) ! 1000 = exampleBlock 1000"
    by (simp add: exampleSuite_def exampleFull_def)
  have h: "Hash exampleEnv (Header (exampleBlock 1000)) = 1001"
    by (simp add: exampleEnv_def exampleBlock_def)
  have c: "setupConnection exampleSuite announcingPeer k
             = (Some announcingConn, [EvExchange k (chain exampleSuite) None])" for k
    by (simp add: setupConnection_def dial_def announcingPeer_def announcingConn_def
          exampleConn_def)
  have r: "reads announcingConn 0 = NewBlockHashes [(1001, 1000)]"
    and w: "\<not> writeErr announcingConn m" and f: "waitForBlock announcingConn x" for m x
    by (simp_all add: announcingConn_def exampleConn_def)
  have l: "length (blocks (fullChain exampleSuite)) = 1001"
    by (simp add: exampleSuite_def exampleFull_len)
  have t: "TD (fullChain exampleSuite) 1001
            = Inr (sumDifficulty 0 (blocks (fullChain exampleSuite)))"
    by (simp add: TD_def l)
  show ?thesis
    by (simp add: TestBroadcast_def Let_def c exampleSuite_len l t b testAnnounce_def w
          waitAnnounce_def r h Head_def appendBlock_def f)
qed

text \<open>
  Claim C9 (the working chain is a prefix of the full chain). \<open>NewSuite\<close> keeps the loaded
  chain as the full chain and \<open>Shorten\<close> of it, its first 1000 blocks, as the working chain.
  After any
  sequence of scenarios of suite.go, run against any peers, the full chain is the loaded
  one, the working chain is no longer than the full chain and agrees with it at every
  index, and the next scenario either leaves the working chain as it is or appends to it
  exactly the full chain's block at the index of the working chain's length.
\<close>

theorem working_chain_prefix:
  assumes "NewSuite dest loaded = Inr s0"
  shows "loaded = Inr (fullChain s0) \<and>
         Shorten (fullChain s0) 1000 = Inr (chain s0) \<and>
         fullChain (runTests E s0 runs) = fullChain s0 \<and>
         1000 \<le> length (blocks (chain (runTests E s0 runs))) \<and>
         length (blocks (chain (runTests E s0 runs))) \<le> length (blocks (fullChain s0)) \<and>
         (\<forall>i < length (blocks (chain (runTests E s0 runs))).
             blocks (chain (runTests E s0 runs)) ! i = blocks (fullChain s0) ! i) \<and>
         (\<forall>sc ds.
             fst (snd (runTest E (runTests E s0 runs) sc ds)) = runTests E s0 runs \<or>
             length (blocks (chain (runTests E s0 runs))) < length (blocks (fullChain s0)) \<and>
             fst (snd (runTest E (runTests E s0 runs) sc ds))
               = (runTests E s0 runs)\<lparr>chain := (chain (runTests E s0 runs))
                   \<lparr>blocks := blocks (chain (runTests E s0 runs)) @
                      [blocks (fullChain s0) ! length (blocks (chain (runTests E s0 runs)))]\<rparr>\<rparr>)"
proof -
  let ?s = "runTests E s0 runs"
  from NewSuite_prefix [OF assms] have l: "loaded = Inr (fullChain s0)"
    and sh: "Shorten (fullChain s0) 1000 = Inr (chain s0)"
    and n0: "length (blocks (chain s0)) = 1000"
    and p0: "take (length (blocks (chain s0))) (blocks (fullChain s0)) = blocks (chain s0)"
    by blast+
  from runTests_prefix [OF p0, of E runs] have f: "fullChain ?s = fullChain s0"
    and p: "take (length (blocks (chain ?s))) (blocks (fullChain ?s)) = blocks (chain ?s)"
    by blast+
  from p f have p': "take (length (blocks (chain ?s))) (blocks (fullChain s0)) = blocks (chain ?s)"
    by simp
  from runTests_length [of s0 E runs] n0 have ge: "1000 \<le> length (blocks (chain ?s))"
    by simp
  have le: "length (blocks (chain ?s)) \<le> length (blocks (fullChain s0))"
  proof -
    have "length (take (length (blocks (chain ?s))) (blocks (fullChain s0)))
            = length (blocks (chain ?s))"
      using p' by simp
    then show ?thesis by simp
  qed
  have nth: "\<forall>i < length (blocks (chain ?s)). blocks (chain ?s) ! i = blocks (fullChain s0) ! i"
  proof (intro allI impI)
    fix i assume "i < length (blocks (chain ?s))"
    then have "take (length (blocks (chain ?s))) (blocks (fullChain s0)) ! i
                 = blocks (fullChain s0) ! i"
      by simp
    with p' show "blocks (chain ?s) ! i = blocks (fullChain s0) ! i"
      by simp
  qed
  have step: "\<forall>sc ds.
             fst (snd (runTest E ?s sc ds)) = ?s \<or>
             length (blocks (chain ?s)) < length (blocks (fullChain s0)) \<and>
             fst (snd (runTest E ?s sc ds))
               = ?s\<lparr>chain := (chain ?s)
                   \<lparr>blocks := blocks (chain ?s) @
                      [blocks (fullChain s0) ! length (blocks (chain ?s))]\<rparr>\<rparr>"
  proof (intro allI)
    fix sc ds
    from runTest_suite [of E ?s sc ds] f
    show "fst (snd (runTest E ?s sc ds)) = ?s \<or>
             length (blocks (chain ?s)) < length (blocks (fullChain s0)) \<and>
             fst (snd (runTest E ?s sc ds))
               = ?s\<lparr>chain := (chain ?s)
                   \<lparr>blocks := blocks (chain ?s) @
                      [blocks (fullChain s0) ! length (blocks (chain ?s))]\<rparr>\<rparr>"
      by (auto simp: appendBlock_def)
  qed
  from l sh f ge le nth step show ?thesis
    by blast
qed

theorem working_chain_prefix_witness:
  "NewSuite 0 (Inr exampleFull) = Inr exampleSuite \<and>
   fullChain (runTests exampleEnv exampleSuite [(ScBroadcast, announcingPeer)]) = exampleFull \<and>
   length (blocks (chain (runTests exampleEnv exampleSuite [(ScBroadcast, announcingPeer)])))
     = 1001 \<and>
   blocks (chain (runTests exampleEnv exampleSuite [(ScBroadcast, announcingPeer)])) ! 1000
     = blocks exampleFull ! 1000"
proof -
  have r: "runTests exampleEnv exampleSuite [(ScBroadcast, announcingPeer)]
             = appendBlock exampleSuite (exampleBlock 1000)"
  proof -
    obtain v s' es where t: "TestBroadcast exampleEnv exampleSuite announcingPeer = (v, s', es)"
      by (cases "TestBroadcast exampleEnv exampleSuite announcingPeer")
    with TestBroadcast_example have "v = Pass" "s' = appendBlock exampleSuite (exampleBlock 1000)"
      by simp_all
    with t show ?thesis by simp
  qed
  have n: "length (blocks (chain (runTests exampleEnv exampleSuite [(ScBroadcast, announcingPeer)])))
             = 1001"
    unfolding r by (simp add: appendBlock_def exampleSuite_len)
  have f: "fullChain exampleSuite = exampleFull"
    by (simp add: exampleSuite_def)
  from working_chain_prefix [OF NewSuite_example, of exampleEnv "[(ScBroadcast, announcingPeer)]"]
    NewSuite_example n f
  show ?thesis
    by (simp del: runTests.simps)
qed


end
